theory Spec2Isabelle
  imports Main "HOL-Library.Word"
begin

section \<open>Python strings\<close>

text \<open>
  A Python \<open>str\<close> is a sequence of Unicode code points and \<open>len\<close> counts code points,
  so a string is a list of code points here.  The literals of the source are written
  with \<open>py\<close>.
\<close>

type_synonym pystr = "nat list"

type_synonym bytes = "8 word list"

definition py :: "string \<Rightarrow> pystr" where
  "py s = map of_char s"

text \<open>
  The characters that \<open>str.strip()\<close> removes and that \<open>\s\<close> matches in a \<open>str\<close> pattern:
  both test CPython's \<open>Py_UNICODE_ISSPACE\<close>.
\<close>

definition is_space :: "nat \<Rightarrow> bool" where
  "is_space c \<longleftrightarrow>
     (9 \<le> c \<and> c \<le> 13) \<or> (28 \<le> c \<and> c \<le> 32) \<or> c = 133 \<or> c = 160 \<or> c = 5760 \<or>
     (8192 \<le> c \<and> c \<le> 8202) \<or> c = 8232 \<or> c = 8233 \<or> c = 8239 \<or> c = 8287 \<or>
     c = 12288"

text \<open>\<open>s.strip()\<close>\<close>

definition strip :: "pystr \<Rightarrow> pystr" where
  "strip s = rev (dropWhile is_space (rev (dropWhile is_space s)))"

text \<open>\<open>re.sub(r'\s+', ' ', text)\<close>: every maximal run of whitespace becomes one space.\<close>

function sub_ws :: "pystr \<Rightarrow> pystr" where
  "sub_ws [] = []"
| "sub_ws (c # cs) =
     (if is_space c then 32 # sub_ws (dropWhile is_space cs) else c # sub_ws cs)"
  by pat_completeness auto
termination
  by (relation "measure length") (auto simp: length_dropWhile_le less_Suc_eq_le)

text \<open>\<open>text[start:end]\<close> for \<open>0 \<le> start \<le> end\<close>\<close>

definition slice :: "'a list \<Rightarrow> nat \<Rightarrow> nat \<Rightarrow> 'a list" where
  "slice xs start end = take (end - start) (drop start xs)"

text \<open>\<open>sep.join(parts)\<close>\<close>

fun join :: "pystr \<Rightarrow> pystr list \<Rightarrow> pystr" where
  "join sep [] = []"
| "join sep [p] = p"
| "join sep (p # q # ps) = p @ sep @ join sep (q # ps)"

section \<open>Constants of \<open>rag.py\<close>\<close>

definition COLLECTION :: pystr where
  "COLLECTION = py ''documents''"

definition CHUNK_SIZE :: nat where
  "CHUNK_SIZE = 500"

definition CHUNK_OVERLAP :: nat where
  "CHUNK_OVERLAP = 50"

definition TOP_K :: int where
  "TOP_K = 5"

section \<open>Text processing\<close>

text \<open>The \<open>while start < len(text)\<close> loop of \<open>chunk_text\<close>, on the normalised text.\<close>

function chunk_loop :: "pystr \<Rightarrow> nat \<Rightarrow> pystr list \<Rightarrow> pystr list" where
  "chunk_loop text start chunks =
     (if start < length text then
        let end = start + CHUNK_SIZE;
            chunk = slice text start end;
            chunks' = (if strip chunk \<noteq> [] then chunks @ [strip chunk] else chunks)
        in chunk_loop text (start + (CHUNK_SIZE - CHUNK_OVERLAP)) chunks'
      else chunks)"
  by pat_completeness auto
termination
  by (relation "measure (\<lambda>(text, start, chunks). length text - start)")
     (auto simp: CHUNK_SIZE_def CHUNK_OVERLAP_def)

definition chunk_text :: "pystr \<Rightarrow> pystr list" where
  "chunk_text text = chunk_loop (strip (sub_ws text)) 0 []"

section \<open>Exceptions\<close>

text \<open>
  The exceptions the application raises or lets through.  All of them are subclasses of
  Python's \<open>Exception\<close>, so an \<open>except Exception\<close> clause catches each of them.
  \<open>UpstreamError\<close> stands for every failure of an HTTP request to Ollama or Qdrant
  (\<open>httpx\<close> errors, \<open>raise_for_status\<close>, a malformed response body);
  \<open>PdfReadError\<close> for a failure of the PDF reader.
\<close>

datatype error =
    ValueError pystr
  | KeyError pystr
  | TypeError
  | UpstreamError
  | PdfReadError
  | HTTPException int pystr

section \<open>Qdrant data\<close>

text \<open>The values the application stores in a payload: integers and strings.\<close>

datatype pval = PInt int | PStr pystr

type_synonym payload = "pystr \<rightharpoonup> pval"

datatype match_value = MatchValue pval

datatype field_condition = FieldCondition pystr match_value

datatype qdrant_filter = Filter "field_condition list"

record 'v point_struct =
  point_id :: pystr
  vector :: 'v
  point_payload :: payload

text \<open>A search hit: the fields of \<open>ScoredPoint\<close> that the application reads.\<close>

record 's scored_point =
  sp_payload :: "payload option"
  sp_score :: 's

record collection_info =
  points_count :: "int option"
  status_value :: pystr

text \<open>
  What a filter means to the store: every \<open>must\<close> condition holds, and a condition
  \<open>FieldCondition(key, MatchValue(value))\<close> holds when the payload has that value under
  that key.  A search without a filter admits every record.
\<close>

fun condition_holds :: "payload \<Rightarrow> field_condition \<Rightarrow> bool" where
  "condition_holds pl (FieldCondition k (MatchValue v)) = (pl k = Some v)"

fun satisfies :: "payload option \<Rightarrow> qdrant_filter option \<Rightarrow> bool" where
  "satisfies pl None = True"
| "satisfies None (Some (Filter must)) = (must = [])"
| "satisfies (Some pl) (Some (Filter must)) = list_all (condition_holds pl) must"

section \<open>The relational store of \<open>database.py\<close>\<close>

record user_row =
  user_id_col :: int
  username_col :: pystr
  role_col :: pystr

record document_row =
  doc_id_col :: int
  doc_user_id :: int
  doc_filename :: pystr
  doc_chunk_count :: int

section \<open>State and external services\<close>

text \<open>The requests the application sends over the network, as they are logged below.\<close>

datatype 'v call =
    EmbedCall pystr
  | GenerateCall pystr pystr
  | QueryPoints 'v "qdrant_filter option" int
  | Upsert "'v point_struct list"
  | Delete qdrant_filter
  | GetCollection

text \<open>
  The state the program runs in: the lazily constructed global client handle
  \<open>qdrant\<close>, the contents of the collection \<open>documents\<close>, the requests sent so far
  (oldest first), the number of \<open>uuid4()\<close> draws so far, and the two SQLite tables.
\<close>

record 'v world =
  qdrant :: bool
  points :: "'v point_struct list"
  calls :: "'v call list"
  uuids :: nat
  users :: "user_row list"
  documents :: "document_row list"

text \<open>
  The collaborators outside the repository are parameters: what Ollama answers, what
  Qdrant answers and how it changes the collection, what the PDF reader and the UTF-8
  decoder return, the identifiers \<open>uuid4\<close> draws and Python's \<open>round(x, 4)\<close> on floats.
  Each answer may depend on the whole state at the time of the request.  Vectors
  \<open>'v\<close> and scores \<open>'s\<close> are floating-point data that the application only passes on.
\<close>

record ('v, 's) services =
  embed_api :: "'v world \<Rightarrow> pystr \<Rightarrow> error + 'v"
  generate_api :: "'v world \<Rightarrow> pystr \<Rightarrow> pystr \<Rightarrow> error + pystr"
  query_points :: "'v world \<Rightarrow> 'v \<Rightarrow> qdrant_filter option \<Rightarrow> int \<Rightarrow> error + 's scored_point list"
  upsert :: "'v world \<Rightarrow> 'v point_struct list \<Rightarrow> error + 'v point_struct list"
  delete :: "'v world \<Rightarrow> qdrant_filter \<Rightarrow> error + 'v point_struct list"
  get_collection :: "'v world \<Rightarrow> error + collection_info"
  pdf_pages :: "bytes \<Rightarrow> error + pystr list"
  decode_utf8 :: "bytes \<Rightarrow> pystr"
  uuid4 :: "'v world \<Rightarrow> pystr"
  round4 :: "'s \<Rightarrow> 's"

definition log_call :: "'v call \<Rightarrow> 'v world \<Rightarrow> 'v world" where
  "log_call c w = w\<lparr>calls := calls w @ [c]\<rparr>"

text \<open>The requests sent between state \<open>w\<close> and a later state \<open>w'\<close>.\<close>

definition new_calls :: "'v world \<Rightarrow> 'v world \<Rightarrow> 'v call list" where
  "new_calls w w' = drop (length (calls w)) (calls w')"

definition get_qdrant :: "'v world \<Rightarrow> 'v world" where
  "get_qdrant w = (if qdrant w then w else w\<lparr>qdrant := True\<rparr>)"

section \<open>Ollama integration\<close>

definition get_embedding ::
  "('v, 's) services \<Rightarrow> pystr \<Rightarrow> 'v world \<Rightarrow> (error + 'v) \<times> 'v world" where
  "get_embedding svc text w = (embed_api svc w text, log_call (EmbedCall text) w)"

definition llm_generate ::
  "('v, 's) services \<Rightarrow> pystr \<Rightarrow> pystr \<Rightarrow> 'v world \<Rightarrow> (error + pystr) \<times> 'v world" where
  "llm_generate svc prompt system w =
     (generate_api svc w prompt system, log_call (GenerateCall prompt system) w)"

section \<open>Ingestion\<close>

definition extract_text_from_pdf :: "('v, 's) services \<Rightarrow> bytes \<Rightarrow> error + pystr" where
  "extract_text_from_pdf svc content =
     (case pdf_pages svc content of
        Inl e \<Rightarrow> Inl e
      | Inr ts \<Rightarrow> Inr (join [10] (filter (\<lambda>t. t \<noteq> []) ts)))"

text \<open>The first statement of \<open>ingest_document\<close>: the text of the document.\<close>

definition extract_text :: "('v, 's) services \<Rightarrow> bytes \<Rightarrow> pystr \<Rightarrow> error + pystr" where
  "extract_text svc content content_type =
     (if content_type = py ''application/pdf'' then extract_text_from_pdf svc content
      else Inr (decode_utf8 svc content))"

text \<open>The loop \<open>for i, chunk in enumerate(chunks)\<close>: one embedding request per chunk.\<close>

fun embed_chunks ::
  "('v, 's) services \<Rightarrow> int \<Rightarrow> pystr \<Rightarrow> pystr list \<Rightarrow> int \<Rightarrow> 'v point_struct list \<Rightarrow>
   'v world \<Rightarrow> (error + 'v point_struct list) \<times> 'v world" where
  "embed_chunks svc user_id filename [] i pts w = (Inr pts, w)"
| "embed_chunks svc user_id filename (chunk # rest) i pts w =
     (case get_embedding svc chunk w of
        (Inl e, w1) \<Rightarrow> (Inl e, w1)
      | (Inr v, w1) \<Rightarrow>
          (let p = \<lparr>point_id = uuid4 svc w1, vector = v,
                    point_payload = [py ''user_id'' \<mapsto> PInt user_id,
                                     py ''filename'' \<mapsto> PStr filename,
                                     py ''chunk_index'' \<mapsto> PInt i,
                                     py ''text'' \<mapsto> PStr chunk]\<rparr>
           in embed_chunks svc user_id filename rest (i + 1) (pts @ [p])
                (w1\<lparr>uuids := uuids w1 + 1\<rparr>)))"

text \<open>The loop \<open>for i in range(0, len(points), batch_size)\<close> with \<open>batch_size = 100\<close>.\<close>

function upsert_batches ::
  "('v, 's) services \<Rightarrow> 'v point_struct list \<Rightarrow> nat \<Rightarrow> 'v world \<Rightarrow> (error + unit) \<times> 'v world" where
  "upsert_batches svc pts i w =
     (if i < length pts then
        (let batch = slice pts i (i + 100)
         in (case upsert svc w batch of
               Inl e \<Rightarrow> (Inl e, log_call (Upsert batch) w)
             | Inr stored \<Rightarrow>
                 upsert_batches svc pts (i + 100)
                   ((log_call (Upsert batch) w)\<lparr>points := stored\<rparr>)))
      else (Inr (), w))"
  by pat_completeness auto
termination
  by (relation "measure (\<lambda>(svc, pts, i, w). length pts - i)") auto

definition ingest_document ::
  "('v, 's) services \<Rightarrow> int \<Rightarrow> pystr \<Rightarrow> bytes \<Rightarrow> pystr \<Rightarrow> 'v world \<Rightarrow> (error + nat) \<times> 'v world" where
  "ingest_document svc user_id filename content content_type w =
     (case extract_text svc content content_type of
        Inl e \<Rightarrow> (Inl e, w)
      | Inr text \<Rightarrow>
          if strip text = [] then
            (Inl (ValueError (py ''No text could be extracted from the document'')), w)
          else
            let chunks = chunk_text text
            in if chunks = [] then
                 (Inl (ValueError (py ''Document produced no chunks after processing'')), w)
               else
                 (case embed_chunks svc user_id filename chunks 0 [] w of
                    (Inl e, w1) \<Rightarrow> (Inl e, w1)
                  | (Inr pts, w1) \<Rightarrow>
                      (case upsert_batches svc pts 0 (get_qdrant w1) of
                         (Inl e, w2) \<Rightarrow> (Inl e, w2)
                       | (Inr u, w2) \<Rightarrow> (Inr (length chunks), w2))))"

section \<open>Query\<close>

record 's source =
  src_filename :: pval
  src_chunk_index :: pval
  owner_id :: pval
  score :: 's

record 's retrieval_result =
  answer :: pystr
  sources :: "'s source list"
  chunks_searched :: nat

text \<open>\<open>payload[key]\<close> on a dict\<close>

definition getitem :: "payload \<Rightarrow> pystr \<Rightarrow> error + pval" where
  "getitem pl k = (case pl k of None \<Rightarrow> Inl (KeyError k) | Some v \<Rightarrow> Inr v)"

text \<open>
  The access filter of \<open>query_rag\<close>: \<open>None\<close> for the role \<open>admin\<close>, equality of
  \<open>user_id\<close> with the caller for every other role.
\<close>

definition query_filter :: "pystr \<Rightarrow> int \<Rightarrow> qdrant_filter option" where
  "query_filter role user_id =
     (if role = py ''admin'' then None
      else Some (Filter [FieldCondition (py ''user_id'') (MatchValue (PInt user_id))]))"

text \<open>
  The loop \<open>for point in results.points\<close>.  Subscripting a missing payload raises
  \<open>TypeError\<close>, a missing key \<open>KeyError\<close>; the keys are read in the order of the source.
\<close>

fun collect_sources ::
  "('s \<Rightarrow> 's) \<Rightarrow> 's scored_point list \<Rightarrow> pval list \<Rightarrow> 's source list \<Rightarrow>
   error + (pval list \<times> 's source list)" where
  "collect_sources rnd [] context_parts srcs = Inr (context_parts, srcs)"
| "collect_sources rnd (point # rest) context_parts srcs =
     (case sp_payload point of
        None \<Rightarrow> Inl TypeError
      | Some pl \<Rightarrow>
          (case getitem pl (py ''text'') of
             Inl e \<Rightarrow> Inl e
           | Inr t \<Rightarrow>
               (case getitem pl (py ''filename'') of
                  Inl e \<Rightarrow> Inl e
                | Inr f \<Rightarrow>
                    (case getitem pl (py ''chunk_index'') of
                       Inl e \<Rightarrow> Inl e
                     | Inr ci \<Rightarrow>
                         (case getitem pl (py ''user_id'') of
                            Inl e \<Rightarrow> Inl e
                          | Inr u \<Rightarrow>
                              collect_sources rnd rest (context_parts @ [t])
                                (srcs @ [\<lparr>src_filename = f, src_chunk_index = ci,
                                          owner_id = u, score = rnd (sp_score point)\<rparr>]))))))"

text \<open>\<open>"\n\n---\n\n".join(context_parts)\<close>: every part must be a \<open>str\<close>.\<close>

fun str_parts :: "pval list \<Rightarrow> error + pystr list" where
  "str_parts [] = Inr []"
| "str_parts (PStr s # ps) = (case str_parts ps of Inl e \<Rightarrow> Inl e | Inr ss \<Rightarrow> Inr (s # ss))"
| "str_parts (PInt n # ps) = Inl TypeError"

definition system_prompt :: pystr where
  "system_prompt =
     py ''You are a helpful assistant that answers questions based on the provided context. '' @
     py ''Only use information from the context below. If the context doesn't contain '' @
     py ''enough information to answer, say so clearly. Cite which source documents '' @
     py ''you drew from.''"

definition make_prompt :: "pystr \<Rightarrow> pystr \<Rightarrow> pystr" where
  "make_prompt context question =
     py ''Context (retrieved documents):'' @ [10] @ context @ [10, 10] @
     py ''Question: '' @ question @ [10, 10] @
     py ''Answer based on the context above:''"

definition no_documents_answer :: pystr where
  "no_documents_answer = py ''No relevant documents found in your accessible knowledge base.''"

definition query_rag ::
  "('v, 's) services \<Rightarrow> pystr \<Rightarrow> int \<Rightarrow> pystr \<Rightarrow> int \<Rightarrow> 'v world \<Rightarrow>
   (error + 's retrieval_result) \<times> 'v world" where
  "query_rag svc question user_id role top_k w =
     (case get_embedding svc question w of
        (Inl e, w1) \<Rightarrow> (Inl e, w1)
      | (Inr query_vector, w1) \<Rightarrow>
          (let flt = query_filter role user_id;
               w2 = get_qdrant w1;
               w3 = log_call (QueryPoints query_vector flt top_k) w2
           in (case query_points svc w2 query_vector flt top_k of
                 Inl e \<Rightarrow> (Inl e, w3)
               | Inr results \<Rightarrow>
                   (if results = [] then
                      (Inr \<lparr>answer = no_documents_answer, sources = [], chunks_searched = 0\<rparr>, w3)
                    else
                      (case collect_sources (round4 svc) results [] [] of
                         Inl e \<Rightarrow> (Inl e, w3)
                       | Inr (context_parts, srcs) \<Rightarrow>
                           (case str_parts context_parts of
                              Inl e \<Rightarrow> (Inl e, w3)
                            | Inr parts \<Rightarrow>
                                (let context = join ([10, 10] @ py ''---'' @ [10, 10]) parts;
                                     prompt = make_prompt context question
                                 in (case llm_generate svc prompt system_prompt w3 of
                                       (Inl e, w4) \<Rightarrow> (Inl e, w4)
                                     | (Inr a, w4) \<Rightarrow>
                                         (Inr \<lparr>answer = a, sources = srcs,
                                               chunks_searched = length results\<rparr>, w4)))))))))"

section \<open>Deletion and statistics\<close>

text \<open>Python's truth value of a \<open>str | None\<close> and of an \<open>int | None\<close>.\<close>

fun truthy_str :: "pystr option \<Rightarrow> bool" where
  "truthy_str None = False"
| "truthy_str (Some s) = (s \<noteq> [])"

fun truthy_int :: "int option \<Rightarrow> bool" where
  "truthy_int None = False"
| "truthy_int (Some n) = (n \<noteq> 0)"

text \<open>The filter that \<open>delete_user_vectors\<close> builds.\<close>

definition delete_filter :: "int \<Rightarrow> pystr option \<Rightarrow> qdrant_filter" where
  "delete_filter user_id filename =
     (let conditions = [FieldCondition (py ''user_id'') (MatchValue (PInt user_id))]
      in Filter (case filename of
                   None \<Rightarrow> conditions
                 | Some f \<Rightarrow>
                     if truthy_str filename
                     then conditions @ [FieldCondition (py ''filename'') (MatchValue (PStr f))]
                     else conditions))"

definition delete_user_vectors ::
  "('v, 's) services \<Rightarrow> int \<Rightarrow> pystr option \<Rightarrow> 'v world \<Rightarrow> (error + unit) \<times> 'v world" where
  "delete_user_vectors svc user_id filename w =
     (let w1 = get_qdrant w;
          flt = delete_filter user_id filename;
          w2 = log_call (Delete flt) w1
      in (case delete svc w1 flt of
            Inl e \<Rightarrow> (Inl e, w2)
          | Inr remaining \<Rightarrow> (Inr (), w2\<lparr>points := remaining\<rparr>)))"

record stats =
  total_vectors :: "int option"
  stats_status :: pystr

text \<open>
  \<open>try: ... except Exception: ...\<close> around the collection lookup: every failure of the
  lookup is caught and replaced by the fallback value.
\<close>

definition get_collection_stats ::
  "('v, 's) services \<Rightarrow> 'v world \<Rightarrow> (error + stats) \<times> 'v world" where
  "get_collection_stats svc w =
     (let w1 = get_qdrant w;
          w2 = log_call GetCollection w1
      in (case get_collection svc w1 of
            Inr info \<Rightarrow>
              (Inr \<lparr>total_vectors = points_count info, stats_status = status_value info\<rparr>, w2)
          | Inl e \<Rightarrow>
              (Inr \<lparr>total_vectors = Some 0, stats_status = py ''unknown''\<rparr>, w2)))"

section \<open>Bookkeeping of \<open>database.py\<close>\<close>

text \<open>
  \<open>DELETE FROM users WHERE id = ? AND role != 'admin'\<close>; the result is
  \<open>rowcount > 0\<close>.
\<close>

definition delete_user :: "int \<Rightarrow> 'v world \<Rightarrow> bool \<times> 'v world" where
  "delete_user user_id w =
     (let hit = (\<lambda>u. user_id_col u = user_id \<and> role_col u \<noteq> py ''admin'')
      in (0 < length (filter hit (users w)),
          w\<lparr>users := filter (\<lambda>u. \<not> hit u) (users w)\<rparr>))"

text \<open>
  The ownership test is made only when \<open>user_id\<close> is truthy; the row found first is
  the one \<open>fetchone\<close> returns.
\<close>

definition delete_document :: "int \<Rightarrow> int option \<Rightarrow> 'v world \<Rightarrow> pystr option \<times> 'v world" where
  "delete_document doc_id user_id w =
     (let row = (if truthy_int user_id
                 then find (\<lambda>d. doc_id_col d = doc_id \<and> Some (doc_user_id d) = user_id)
                        (documents w)
                 else find (\<lambda>d. doc_id_col d = doc_id) (documents w))
      in (case row of
            Some r \<Rightarrow>
              (Some (doc_filename r),
               w\<lparr>documents := filter (\<lambda>d. doc_id_col d \<noteq> doc_id) (documents w)\<rparr>)
          | None \<Rightarrow> (None, w)))"

section \<open>Routes of \<open>main.py\<close>\<close>

text \<open>The caller as \<open>decode_token\<close> hands it to a route.\<close>

record current_user =
  cu_user_id :: int
  cu_username :: pystr
  cu_role :: pystr

definition require_admin :: "current_user \<Rightarrow> error + current_user" where
  "require_admin user =
     (if cu_role user \<noteq> py ''admin'' then Inl (HTTPException 403 (py ''Admin access required''))
      else Inr user)"

definition remove_user ::
  "('v, 's) services \<Rightarrow> int \<Rightarrow> current_user \<Rightarrow> 'v world \<Rightarrow> (error + pystr) \<times> 'v world" where
  "remove_user svc user_id user w =
     (case require_admin user of
        Inl e \<Rightarrow> (Inl e, w)
      | Inr admin \<Rightarrow>
          (case delete_user_vectors svc user_id None w of
             (Inl e, w1) \<Rightarrow> (Inl e, w1)
           | (Inr u, w1) \<Rightarrow>
               (case delete_user user_id w1 of
                  (False, w2) \<Rightarrow> (Inl (HTTPException 404 (py ''User not found or is admin'')), w2)
                | (True, w2) \<Rightarrow> (Inr (py ''User and all associated data deleted''), w2))))"

definition remove_document ::
  "('v, 's) services \<Rightarrow> int \<Rightarrow> current_user \<Rightarrow> 'v world \<Rightarrow> (error + pystr) \<times> 'v world" where
  "remove_document svc doc_id user w =
     (case (if cu_role user = py ''admin'' then delete_document doc_id None w
            else delete_document doc_id (Some (cu_user_id user)) w) of
        (filename, w1) \<Rightarrow>
          if \<not> truthy_str filename then (Inl (HTTPException 404 (py ''Document not found'')), w1)
          else
            (case delete_user_vectors svc (cu_user_id user) filename w1 of
               (Inl e, w2) \<Rightarrow> (Inl e, w2)
             | (Inr u, w2) \<Rightarrow>
                 (Inr (py ''Document '' @ [39] @ (case filename of Some f \<Rightarrow> f | None \<Rightarrow> []) @ [39] @
                       py '' and its vectors deleted''), w2)))"

section \<open>Auxiliary notions for the proofs\<close>

text \<open>Two neighbouring whitespace characters somewhere in a string.\<close>

fun adj_ws :: "pystr \<Rightarrow> bool" where
  "adj_ws (a # b # cs) = ((is_space a \<and> is_space b) \<or> adj_ws (b # cs))"
| "adj_ws cs = False"

text \<open>The store returns only records that satisfy the filter of the request.\<close>

definition returns_only_matching :: "('v, 's) services \<Rightarrow> bool" where
  "returns_only_matching svc \<longleftrightarrow>
     (\<forall>w v flt k pts. query_points svc w v flt k = Inr pts \<longrightarrow>
        (\<forall>p\<in>set pts. satisfies (sp_payload p) flt))"

text \<open>The store returns at most \<open>limit\<close> records.\<close>

definition respects_limit :: "('v, 's) services \<Rightarrow> bool" where
  "respects_limit svc \<longleftrightarrow>
     (\<forall>w v flt k pts. query_points svc w v flt k = Inr pts \<longrightarrow> int (length pts) \<le> k)"

text \<open>
  The store's delete succeeds and removes exactly the records that satisfy the filter of
  the request.
\<close>

definition deletes_matching :: "('v, 's) services \<Rightarrow> bool" where
  "deletes_matching svc \<longleftrightarrow>
     (\<forall>w flt. delete svc w flt =
        Inr (filter (\<lambda>p. \<not> satisfies (Some (point_payload p)) (Some flt)) (points w)))"

text \<open>A source entry is the one the loop of \<open>query_rag\<close> builds from a search hit.\<close>

definition source_of :: "('s \<Rightarrow> 's) \<Rightarrow> 's source \<Rightarrow> 's scored_point \<Rightarrow> bool" where
  "source_of rnd s p \<longleftrightarrow>
     (case sp_payload p of
        None \<Rightarrow> False
      | Some pl \<Rightarrow>
          pl (py ''filename'') = Some (src_filename s) \<and>
          pl (py ''chunk_index'') = Some (src_chunk_index s) \<and>
          pl (py ''user_id'') = Some (owner_id s) \<and>
          score s = rnd (sp_score p))"

subsection \<open>A concrete environment\<close>

text \<open>
  A small store with records of two owners, and services that answer every request:
  the search filters the collection, keeps its order and cuts it at the limit, and
  refuses a negative limit.
\<close>

definition sample_payload :: "int \<Rightarrow> pystr \<Rightarrow> int \<Rightarrow> pystr \<Rightarrow> payload" where
  "sample_payload uid fname i txt =
     [py ''user_id'' \<mapsto> PInt uid, py ''filename'' \<mapsto> PStr fname,
      py ''chunk_index'' \<mapsto> PInt i, py ''text'' \<mapsto> PStr txt]"

definition sample_world :: "nat world" where
  "sample_world =
     \<lparr>qdrant = False,
      points =
        [\<lparr>point_id = py ''p1'', vector = 1, point_payload = sample_payload 1 (py ''a.txt'') 0 (py ''alpha'')\<rparr>,
         \<lparr>point_id = py ''p2'', vector = 2, point_payload = sample_payload 2 (py ''b.txt'') 0 (py ''beta'')\<rparr>,
         \<lparr>point_id = py ''p3'', vector = 3, point_payload = sample_payload 2 (py ''b.txt'') 1 (py ''gamma'')\<rparr>],
      calls = [],
      uuids = 0,
      users =
        [\<lparr>user_id_col = 1, username_col = py ''admin'', role_col = py ''admin''\<rparr>,
         \<lparr>user_id_col = 2, username_col = py ''bob'', role_col = py ''user''\<rparr>],
      documents =
        [\<lparr>doc_id_col = 1, doc_user_id = 1, doc_filename = py ''a.txt'', doc_chunk_count = 1\<rparr>,
         \<lparr>doc_id_col = 2, doc_user_id = 2, doc_filename = py ''b.txt'', doc_chunk_count = 2\<rparr>]\<rparr>"

definition sample_search :: "nat world \<Rightarrow> nat \<Rightarrow> qdrant_filter option \<Rightarrow> int \<Rightarrow> nat scored_point list" where
  "sample_search w v flt k =
     take (nat k)
       (filter (\<lambda>p. satisfies (sp_payload p) flt)
          (map (\<lambda>p. \<lparr>sp_payload = Some (point_payload p), sp_score = vector p\<rparr>) (points w)))"

definition sample_services :: "(nat, nat) services" where
  "sample_services =
     \<lparr>embed_api = (\<lambda>w t. Inr (length t)),
      generate_api = (\<lambda>w p s. Inr (py ''ok'')),
      query_points = (\<lambda>w v flt k.
        if k < 0 then Inl UpstreamError else Inr (sample_search w v flt k)),
      upsert = (\<lambda>w batch. Inr (points w @ batch)),
      delete = (\<lambda>w flt.
        Inr (filter (\<lambda>p. \<not> satisfies (Some (point_payload p)) (Some flt)) (points w))),
      get_collection = (\<lambda>w.
        Inr \<lparr>points_count = Some (int (length (points w))), status_value = py ''green''\<rparr>),
      pdf_pages = (\<lambda>b. Inr []),
      decode_utf8 = map unat,
      uuid4 = (\<lambda>w. replicate (Suc (uuids w)) 120),
      round4 = id\<rparr>"

section \<open>Properties of the text processing\<close>

lemma all_dropWhile: "(\<forall>x\<in>set (dropWhile P xs). P x) \<longleftrightarrow> (\<forall>x\<in>set xs. P x)"
  by (induction xs) auto

lemma strip_eq_Nil: "strip s = [] \<longleftrightarrow> (\<forall>c\<in>set s. is_space c)"
  by (simp add: strip_def all_dropWhile)

lemma strip_take_drop:
  "strip s = take (length (dropWhile is_space s) - length (takeWhile is_space (rev (dropWhile is_space s))))
       (drop (length (takeWhile is_space s)) s)"
  unfolding strip_def
  apply (simp add: dropWhile_eq_drop[of is_space "rev _"] drop_rev)
  apply (simp add: dropWhile_eq_drop)
  done

lemma last_dropWhile_ne: "dropWhile P xs \<noteq> [] \<Longrightarrow> last (dropWhile P xs) = last xs"
  by (induction xs) (auto split: if_splits)

lemma strip_hd: "strip s \<noteq> [] \<Longrightarrow> \<not> is_space (hd (strip s))"
proof -
  let ?b = "dropWhile is_space s"
  assume ne: "strip s \<noteq> []"
  then have x: "dropWhile is_space (rev ?b) \<noteq> []" by (simp add: strip_def)
  then have b: "?b \<noteq> []" by (metis dropWhile.simps(1) rev.simps(1))
  have "hd (strip s) = last (dropWhile is_space (rev ?b))"
    using x by (simp add: strip_def hd_rev)
  also have "\<dots> = last (rev ?b)" using x by (rule last_dropWhile_ne)
  also have "\<dots> = hd ?b" using b by (simp add: last_rev)
  finally show ?thesis using hd_dropWhile[OF b] by simp
qed

lemma strip_last: "strip s \<noteq> [] \<Longrightarrow> \<not> is_space (last (strip s))"
  unfolding strip_def
  by (simp add: last_rev hd_dropWhile)

lemma strip_fix: "s = [] \<or> (\<not> is_space (hd s) \<and> \<not> is_space (last s)) \<Longrightarrow> strip s = s"
proof (cases "s = []")
  case True
  then show ?thesis by (simp add: strip_def)
next
  case False
  assume "s = [] \<or> (\<not> is_space (hd s) \<and> \<not> is_space (last s))"
  with False have a: "dropWhile is_space s = s" and b: "dropWhile is_space (rev s) = rev s"
    by (simp_all add: dropWhile_eq_self_iff hd_rev)
  show ?thesis unfolding strip_def a b by simp
qed

lemma strip_strip: "strip (strip s) = strip s"
  using strip_fix strip_hd strip_last by blast

lemma length_strip: "length (strip s) \<le> length s"
  by (simp add: strip_take_drop)

lemma length_sub_ws: "length (sub_ws s) \<le> length s"
proof (induction s rule: sub_ws.induct)
  case 1 show ?case by simp
next
  case (2 c cs)
  have "length (dropWhile is_space cs) \<le> length cs" by (rule length_dropWhile_le)
  with 2 show ?case by auto
qed

lemma sub_ws_all_space: "(\<forall>c\<in>set (sub_ws s). is_space c) \<longleftrightarrow> (\<forall>c\<in>set s. is_space c)"
proof (induction s rule: sub_ws.induct)
  case 1 show ?case by simp
next
  case (2 c cs)
  have sp: "is_space 32" by (simp add: is_space_def)
  show ?case
  proof (cases "is_space c")
    case True
    have "(\<forall>x\<in>set (dropWhile is_space cs). is_space x) \<longleftrightarrow> (\<forall>x\<in>set cs. is_space x)"
      by (rule all_dropWhile)
    with True 2 sp show ?thesis by simp
  next
    case False
    then show ?thesis by auto
  qed
qed

lemma sub_ws_Cons_nonspace: "\<not> is_space c \<Longrightarrow> sub_ws (c # cs) = c # sub_ws cs"
  by simp

lemma adj_ws_sub_ws: "\<not> adj_ws (sub_ws t)"
proof (induction t rule: sub_ws.induct)
  case 1 show ?case by simp
next
  case (2 c cs)
  show ?case
  proof (cases "is_space c")
    case True
    then have eq: "sub_ws (c # cs) = 32 # sub_ws (dropWhile is_space cs)" by simp
    show ?thesis
    proof (cases "dropWhile is_space cs")
      case Nil
      show ?thesis unfolding eq Nil by simp
    next
      case (Cons x d)
      then have "\<not> is_space x" by (metis hd_dropWhile list.sel(1) list.distinct(1))
      moreover from True 2 have "\<not> adj_ws (sub_ws (dropWhile is_space cs))" by simp
      ultimately show ?thesis unfolding eq Cons by simp
    qed
  next
    case False
    with 2 show ?thesis by (cases "sub_ws cs") auto
  qed
qed

lemma adj_ws_drop: "\<not> adj_ws xs \<Longrightarrow> \<not> adj_ws (drop n xs)"
proof (induction n arbitrary: xs)
  case 0 then show ?case by simp
next
  case (Suc n)
  show ?case
  proof (cases xs)
    case Nil then show ?thesis by simp
  next
    case (Cons a ys)
    with Suc.prems have "\<not> adj_ws ys" by (cases ys) auto
    with Suc.IH Cons show ?thesis by simp
  qed
qed

lemma adj_ws_take: "\<not> adj_ws xs \<Longrightarrow> \<not> adj_ws (take n xs)"
proof (induction xs arbitrary: n rule: adj_ws.induct)
  case (1 a b cs)
  show ?case
  proof (cases n)
    case 0 then show ?thesis by simp
  next
    case (Suc m)
    from 1 have "\<not> adj_ws (take m (b # cs))" by auto
    with 1 Suc show ?thesis by (cases m) auto
  qed
qed (simp_all add: take_Cons')

lemma adj_ws_strip: "\<not> adj_ws xs \<Longrightarrow> \<not> adj_ws (strip xs)"
  by (simp add: strip_take_drop adj_ws_take adj_ws_drop)

lemma adj_ws_window:
  assumes "\<not> adj_ws t" "start + 2 \<le> length t"
  shows "strip (slice t start (start + CHUNK_SIZE)) \<noteq> []"
proof -
  from assms(2) have "2 \<le> length (drop start t)" by simp
  then obtain a b cs where d: "drop start t = a # b # cs"
    by (cases "drop start t"; cases "tl (drop start t)") auto
  from assms(1) have "\<not> adj_ws (drop start t)" by (rule adj_ws_drop)
  with d have "\<not> is_space a \<or> \<not> is_space b" by simp
  then show ?thesis
    by (auto simp: strip_eq_Nil slice_def d CHUNK_SIZE_def)
qed

declare chunk_loop.simps [simp del]

lemma chunk_loop_done: "length t \<le> start \<Longrightarrow> chunk_loop t start cs = cs"
  by (subst chunk_loop.simps) simp

lemma chunk_loop_step:
  "start < length t \<Longrightarrow> strip (slice t start (start + CHUNK_SIZE)) \<noteq> [] \<Longrightarrow>
   chunk_loop t start cs =
     chunk_loop t (start + 450) (cs @ [strip (slice t start (start + CHUNK_SIZE))])"
  by (subst chunk_loop.simps) (simp add: Let_def CHUNK_SIZE_def CHUNK_OVERLAP_def)

lemma chunk_text_blank: "\<forall>c\<in>set t. is_space c \<Longrightarrow> chunk_text t = []"
proof -
  assume "\<forall>c\<in>set t. is_space c"
  then have "strip (sub_ws t) = []" by (simp add: strip_eq_Nil sub_ws_all_space)
  then show ?thesis by (simp add: chunk_text_def chunk_loop_done)
qed

lemma slice_whole: "length t \<le> e \<Longrightarrow> slice t 0 e = t"
  by (simp add: slice_def)

lemma chunk_text_single:
  assumes "strip (sub_ws t) \<noteq> []" "length (strip (sub_ws t)) \<le> 450"
  shows "chunk_text t = [strip (sub_ws t)]"
proof -
  let ?n = "strip (sub_ws t)"
  have s: "slice ?n 0 (0 + CHUNK_SIZE) = ?n"
    using assms(2) by (simp add: slice_whole CHUNK_SIZE_def)
  have "chunk_loop ?n 0 [] = chunk_loop ?n (0 + 450) ([] @ [strip (slice ?n 0 (0 + CHUNK_SIZE))])"
    using assms(1) by (intro chunk_loop_step) (simp_all only: s strip_strip length_greater_0_conv not_False_eq_True)
  also have "\<dots> = [?n]"
    using assms(2) by (simp only: s strip_strip) (simp add: chunk_loop_done)
  finally show ?thesis by (simp add: chunk_text_def)
qed

lemma chunk_text_two:
  assumes "450 < length (strip (sub_ws t))" "length (strip (sub_ws t)) < 500"
  shows "chunk_text t = [strip (sub_ws t), strip (drop 450 (strip (sub_ws t)))]"
proof -
  let ?n = "strip (sub_ws t)"
  have ne: "?n \<noteq> []" using assms(1) by auto
  have s: "slice ?n 0 (0 + CHUNK_SIZE) = ?n"
    using assms(2) by (simp add: slice_whole CHUNK_SIZE_def)
  have s2: "slice ?n 450 (450 + CHUNK_SIZE) = drop 450 ?n"
    using assms(2) by (simp add: slice_def CHUNK_SIZE_def)
  have d: "drop 450 ?n \<noteq> []" using assms(1) by simp
  have "last (drop 450 ?n) = last ?n" using assms(1) by simp
  then have l: "\<not> is_space (last (drop 450 ?n))" using strip_last[OF ne] by simp
  have s3: "strip (drop 450 ?n) \<noteq> []"
    using l d by (metis strip_eq_Nil last_in_set)
  have "chunk_loop ?n 0 [] = chunk_loop ?n (0 + 450) ([] @ [strip (slice ?n 0 (0 + CHUNK_SIZE))])"
    using ne by (intro chunk_loop_step) (simp_all only: s strip_strip length_greater_0_conv not_False_eq_True)
  also have "\<dots> = chunk_loop ?n 450 [?n]" by (simp only: s strip_strip) simp
  also have "\<dots> = chunk_loop ?n (450 + 450) ([?n] @ [strip (slice ?n 450 (450 + CHUNK_SIZE))])"
    using assms(1) s3 by (intro chunk_loop_step) (simp_all only: s2 not_False_eq_True)
  also have "\<dots> = [?n, strip (drop 450 ?n)]"
    using assms(2) by (simp only: s2) (simp add: chunk_loop_done)
  finally show ?thesis by (simp add: chunk_text_def)
qed

lemma chunks_at_three_offsets:
  assumes "length t = 1200" "strip (sub_ws t) = t"
  shows "chunk_text t = [strip (slice t 0 (0 + CHUNK_SIZE)), strip (slice t 450 (450 + CHUNK_SIZE)),
                         strip (slice t 900 (900 + CHUNK_SIZE))]"
proof -
  have na: "\<not> adj_ws t" using adj_ws_strip[OF adj_ws_sub_ws, of t] assms(2) by simp
  have w: "\<And>s. s + 2 \<le> 1200 \<Longrightarrow> strip (slice t s (s + CHUNK_SIZE)) \<noteq> []"
    using adj_ws_window[OF na] assms(1) by simp
  have c0: "strip (slice t 0 (0 + CHUNK_SIZE)) \<noteq> []" using w[of 0] by simp
  have "chunk_loop t 0 [] = chunk_loop t (0 + 450) ([] @ [strip (slice t 0 (0 + CHUNK_SIZE))])"
    by (rule chunk_loop_step) (simp add: assms(1), rule c0)
  also have "\<dots> = chunk_loop t 450 [strip (slice t 0 (0 + CHUNK_SIZE))]" by simp
  also have "\<dots> = chunk_loop t (450 + 450) ([strip (slice t 0 (0 + CHUNK_SIZE))] @ [strip (slice t 450 (450 + CHUNK_SIZE))])"
    by (rule chunk_loop_step) (simp_all add: assms(1) w)
  also have "\<dots> = chunk_loop t 900 [strip (slice t 0 (0 + CHUNK_SIZE)), strip (slice t 450 (450 + CHUNK_SIZE))]" by simp
  also have "\<dots> = chunk_loop t (900 + 450) ([strip (slice t 0 (0 + CHUNK_SIZE)), strip (slice t 450 (450 + CHUNK_SIZE))] @ [strip (slice t 900 (900 + CHUNK_SIZE))])"
    by (rule chunk_loop_step) (simp_all add: assms(1) w)
  also have "\<dots> = [strip (slice t 0 (0 + CHUNK_SIZE)), strip (slice t 450 (450 + CHUNK_SIZE)),
                         strip (slice t 900 (900 + CHUNK_SIZE))]"
    by (simp add: chunk_loop_done assms(1))
  finally show ?thesis by (simp add: chunk_text_def assms(2))
qed

lemma normalize_short:
  assumes "\<exists>c\<in>set t. \<not> is_space c" "length t < 450"
  shows "strip (sub_ws t) \<noteq> [] \<and> length (strip (sub_ws t)) \<le> 450"
proof -
  have "length (strip (sub_ws t)) \<le> length t"
    using length_strip[of "sub_ws t"] length_sub_ws[of t] by simp
  moreover have "strip (sub_ws t) \<noteq> []" using assms(1) by (simp add: strip_eq_Nil sub_ws_all_space)
  ultimately show ?thesis using assms(2) by simp
qed

lemma sub_ws_id: "\<forall>c\<in>set t. \<not> is_space c \<Longrightarrow> sub_ws t = t"
  by (induction t) auto

lemma norm_replicate: "\<not> is_space c \<Longrightarrow> strip (sub_ws (replicate n c)) = replicate n c"
  by (cases n) (simp_all add: sub_ws_id strip_fix)

lemma chunks_of_451_letters: "chunk_text (replicate 451 97) = [replicate 451 97, [97]]"
proof -
  have n: "strip (sub_ws (replicate 451 97)) = replicate 451 97"
    by (rule norm_replicate) (simp add: is_space_def)
  have d: "drop 450 (replicate 451 (97::nat)) = [97]"
    by (simp only: drop_replicate) simp
  have "strip [97] = [97]"
    by (rule strip_fix) (simp add: is_space_def)
  then show ?thesis
    using chunk_text_two[of "replicate 451 97"] by (simp only: n d length_replicate)
qed

text \<open>
  Claim C3, as the code has it.  The window is 500 characters long but advances by 450:
  a normalised text of 451 to 499 characters is cut a second time, at offset 450.  So a
  text that, after whitespace normalisation, is non-empty and at most 450 characters long
  (window size minus overlap) yields exactly one chunk, the normalised text itself; and
  an empty or whitespace-only text yields the empty sequence.
\<close>

theorem chunk_text_short_text:
  "(strip (sub_ws t) \<noteq> [] \<and> length (strip (sub_ws t)) \<le> CHUNK_SIZE - CHUNK_OVERLAP
      \<longrightarrow> chunk_text t = [strip (sub_ws t)]) \<and>
   ((\<forall>c\<in>set t. is_space c) \<longrightarrow> chunk_text t = [])"
  using chunk_text_single[of t] chunk_text_blank[of t]
  by (simp add: CHUNK_SIZE_def CHUNK_OVERLAP_def)

theorem chunk_text_short_text_witness:
  "strip (sub_ws [32, 97, 32, 32, 98, 10]) \<noteq> [] \<and>
   length (strip (sub_ws [32, 97, 32, 32, 98, 10])) \<le> CHUNK_SIZE - CHUNK_OVERLAP \<and>
   chunk_text [32, 97, 32, 32, 98, 10] = [[97, 32, 98]] \<and>
   is_space 32 \<and> is_space 10 \<and> chunk_text [32, 10] = []"
  using chunk_text_short_text[of "[32, 97, 32, 32, 98, 10]"] chunk_text_short_text[of "[32, 10]"]
  by (simp add: strip_def is_space_def CHUNK_SIZE_def CHUNK_OVERLAP_def)

text \<open>
  Claim C3 as stated fails: 451 letters \<open>a\<close> are non-empty and shorter than the window
  after normalisation, and \<open>chunk_text\<close> yields two chunks.
\<close>

theorem chunk_text_window_counterexample:
  "strip (sub_ws (replicate 451 97)) \<noteq> [] \<and>
   length (strip (sub_ws (replicate 451 97))) < CHUNK_SIZE \<and>
   length (chunk_text (replicate 451 97)) \<noteq> 1"
proof -
  have n: "strip (sub_ws (replicate 451 97)) = replicate 451 97"
    by (rule norm_replicate) (simp add: is_space_def)
  have a: "strip (sub_ws (replicate 451 97)) \<noteq> []"
    unfolding n by (simp only: replicate_empty)
  have b: "length (strip (sub_ws (replicate 451 97))) < CHUNK_SIZE"
    unfolding n by (simp add: CHUNK_SIZE_def)
  have c: "length (chunk_text (replicate 451 97)) \<noteq> 1"
    unfolding chunks_of_451_letters by simp
  from a b c show ?thesis by blast
qed

text \<open>
  Claim C8.  A whitespace-normalised string of 1200 characters yields exactly three
  chunks, cut at the offsets 0, 450 and 900, each offset 450 after the previous one; a
  string of fewer than 450 characters that is not whitespace-only yields exactly one
  chunk.
\<close>

theorem chunk_text_1200_and_short:
  "(length t = 1200 \<and> strip (sub_ws t) = t \<longrightarrow>
      chunk_text t = map (\<lambda>start. strip (slice t start (start + CHUNK_SIZE))) [0, 450, 900] \<and>
      length (chunk_text t) = 3 \<and> CHUNK_SIZE - CHUNK_OVERLAP = 450) \<and>
   ((\<exists>c\<in>set t. \<not> is_space c) \<and> length t < 450 \<longrightarrow> length (chunk_text t) = 1)"
proof (intro conjI impI)
  assume h: "length t = 1200 \<and> strip (sub_ws t) = t"
  then show "chunk_text t = map (\<lambda>start. strip (slice t start (start + CHUNK_SIZE))) [0, 450, 900]"
    using chunks_at_three_offsets[of t] by simp
  then show "length (chunk_text t) = 3" by simp
  show "CHUNK_SIZE - CHUNK_OVERLAP = 450" by (simp add: CHUNK_SIZE_def CHUNK_OVERLAP_def)
next
  assume "(\<exists>c\<in>set t. \<not> is_space c) \<and> length t < 450"
  then have "strip (sub_ws t) \<noteq> [] \<and> length (strip (sub_ws t)) \<le> 450"
    using normalize_short[of t] by simp
  then show "length (chunk_text t) = 1" using chunk_text_single[of t] by simp
qed

theorem chunk_text_1200_and_short_witness:
  "length (replicate 1200 (97::nat)) = 1200 \<and>
   strip (sub_ws (replicate 1200 97)) = replicate 1200 97 \<and>
   length (chunk_text (replicate 1200 97)) = 3 \<and>
   (\<exists>c\<in>set [104, 105]. \<not> is_space c) \<and> length [104, 105 :: nat] < 450 \<and>
   length (chunk_text [104, 105]) = 1"
proof -
  have n: "strip (sub_ws (replicate 1200 97)) = replicate 1200 97"
    by (rule norm_replicate) (simp add: is_space_def)
  have l: "length (replicate 1200 (97::nat)) = 1200" by (simp only: length_replicate)
  have a: "length (chunk_text (replicate 1200 97)) = 3"
    using chunk_text_1200_and_short[of "replicate 1200 97"] n l by blast
  have b: "(\<exists>c\<in>set [104, 105]. \<not> is_space c) \<and> length [104, 105 :: nat] < 450"
    by (simp add: is_space_def)
  then have "length (chunk_text [104, 105]) = 1"
    using chunk_text_1200_and_short[of "[104, 105]"] by blast
  with n l a b show ?thesis by blast
qed

section \<open>Properties of the query\<close>

lemma calls_log_call: "calls (log_call c w) = calls w @ [c]"
  by (simp add: log_call_def)

lemma calls_get_qdrant: "calls (get_qdrant w) = calls w"
  by (simp add: get_qdrant_def)

lemma points_log_call: "points (log_call c w) = points w"
  by (simp add: log_call_def)

lemma points_get_qdrant: "points (get_qdrant w) = points w"
  by (simp add: get_qdrant_def)

lemma new_calls_append: "calls w' = calls w @ xs \<Longrightarrow> new_calls w w' = xs"
  by (simp add: new_calls_def)

lemma new_calls_same: "new_calls w w = []"
  by (simp add: new_calls_def)

lemma collect_sources_all2:
  "collect_sources rnd pts cp srcs = Inr (cp', srcs') \<Longrightarrow>
   \<exists>new. srcs' = srcs @ new \<and> list_all2 (source_of rnd) new pts"
proof (induction pts arbitrary: cp srcs)
  case Nil
  then show ?case by simp
next
  case (Cons p pts)
  from Cons.prems obtain pl t f ci u where
    pl: "sp_payload p = Some pl" and
    t: "pl (py ''text'') = Some t" and f: "pl (py ''filename'') = Some f" and
    ci: "pl (py ''chunk_index'') = Some ci" and u: "pl (py ''user_id'') = Some u" and
    rest: "collect_sources rnd pts (cp @ [t])
             (srcs @ [\<lparr>src_filename = f, src_chunk_index = ci, owner_id = u,
                       score = rnd (sp_score p)\<rparr>]) = Inr (cp', srcs')"
    by (auto simp: getitem_def split: option.splits sum.splits)
  from Cons.IH[OF rest] obtain new where
    new: "srcs' = (srcs @ [\<lparr>src_filename = f, src_chunk_index = ci, owner_id = u,
                       score = rnd (sp_score p)\<rparr>]) @ new" and
    all2: "list_all2 (source_of rnd) new pts"
    by blast
  have "source_of rnd \<lparr>src_filename = f, src_chunk_index = ci, owner_id = u,
                       score = rnd (sp_score p)\<rparr> p"
    by (simp add: source_of_def pl f ci u)
  with new all2 show ?case by auto
qed

lemma query_rag_result:
  assumes "query_rag svc question user_id role top_k w = (Inr res, w')"
  shows "\<exists>v pts. embed_api svc w question = Inr v \<and>
           query_points svc (get_qdrant (log_call (EmbedCall question) w)) v
             (query_filter role user_id) top_k = Inr pts \<and>
           list_all2 (source_of (round4 svc)) (sources res) pts \<and>
           chunks_searched res = length pts"
proof -
  from assms obtain v where v: "embed_api svc w question = Inr v"
    by (auto simp: query_rag_def get_embedding_def split: sum.splits)
  let ?w2 = "get_qdrant (log_call (EmbedCall question) w)"
  from assms v obtain pts where
    pts: "query_points svc ?w2 v (query_filter role user_id) top_k = Inr pts"
    by (auto simp: query_rag_def get_embedding_def Let_def split: sum.splits)
  show ?thesis
  proof (cases "pts = []")
    case True
    with assms v pts have "sources res = []" "chunks_searched res = 0"
      by (auto simp: query_rag_def get_embedding_def Let_def)
    with v pts True show ?thesis by simp
  next
    case False
    with assms v pts obtain cp srcs where
      cs: "collect_sources (round4 svc) pts [] [] = Inr (cp, srcs)" and
      r: "sources res = srcs" "chunks_searched res = length pts"
      by (auto simp: query_rag_def get_embedding_def llm_generate_def Let_def
               split: sum.splits prod.splits)
    from collect_sources_all2[OF cs] r have "list_all2 (source_of (round4 svc)) (sources res) pts"
      by simp
    with v pts r show ?thesis by blast
  qed
qed

lemma sample_returns_only_matching: "returns_only_matching sample_services"
  by (auto simp: returns_only_matching_def sample_services_def sample_search_def
           split: if_splits dest!: in_set_takeD)

lemma sample_respects_limit: "respects_limit sample_services"
  by (auto simp: respects_limit_def sample_services_def sample_search_def split: if_splits)

lemmas sample_eval =
  query_rag_def get_embedding_def llm_generate_def log_call_def get_qdrant_def
  sample_services_def sample_world_def sample_search_def sample_payload_def
  query_filter_def getitem_def py_def Let_def

lemma sample_query:
  "fst (query_rag sample_services (py ''q'') 2 (py ''user'') 5 sample_world) =
     Inr \<lparr>answer = py ''ok'',
          sources = [\<lparr>src_filename = PStr (py ''b.txt''), src_chunk_index = PInt 0,
                      owner_id = PInt 2, score = 2\<rparr>,
                     \<lparr>src_filename = PStr (py ''b.txt''), src_chunk_index = PInt 1,
                      owner_id = PInt 2, score = 3\<rparr>],
          chunks_searched = 2\<rparr>"
  by (simp add: sample_eval)

text \<open>
  Claim C1.  For a query with a role other than \<open>admin\<close>, and a store that returns only
  records satisfying the filter it is given, every source of the result that
  \<open>query_rag\<close> returns has the caller's \<open>user_id\<close> as its \<open>owner_id\<close>.
\<close>

theorem query_rag_rbac_containment:
  assumes "role \<noteq> py ''admin''"
    and "returns_only_matching svc"
    and "query_rag svc question user_id role top_k w = (Inr res, w')"
  shows "\<forall>s\<in>set (sources res). owner_id s = PInt user_id"
proof
  fix s assume s: "s \<in> set (sources res)"
  from query_rag_result[OF assms(3)] obtain v pts where
    pts: "query_points svc (get_qdrant (log_call (EmbedCall question) w)) v
             (query_filter role user_id) top_k = Inr pts" and
    all2: "list_all2 (source_of (round4 svc)) (sources res) pts"
    by blast
  from all2 s obtain p where p: "p \<in> set pts" "source_of (round4 svc) s p"
    by (metis in_set_conv_nth list_all2_conv_all_nth)
  from assms(2) pts p(1) have "satisfies (sp_payload p) (query_filter role user_id)"
    unfolding returns_only_matching_def by blast
  with assms(1) p(2) show "owner_id s = PInt user_id"
    by (auto simp: query_filter_def source_of_def split: option.splits)
qed

theorem query_rag_rbac_containment_witness:
  "py ''user'' \<noteq> py ''admin'' \<and> returns_only_matching sample_services \<and>
   fst (query_rag sample_services (py ''q'') 2 (py ''user'') 5 sample_world) =
     Inr \<lparr>answer = py ''ok'',
          sources = [\<lparr>src_filename = PStr (py ''b.txt''), src_chunk_index = PInt 0,
                      owner_id = PInt 2, score = 2\<rparr>,
                     \<lparr>src_filename = PStr (py ''b.txt''), src_chunk_index = PInt 1,
                      owner_id = PInt 2, score = 3\<rparr>],
          chunks_searched = 2\<rparr> \<and>
   map owner_id
     (sources (projr (fst (query_rag sample_services (py ''q'') 2 (py ''user'') 5 sample_world))))
     = [PInt 2, PInt 2]"
proof -
  let ?r = "query_rag sample_services (py ''q'') 2 (py ''user'') 5 sample_world"
  have h1: "py ''user'' \<noteq> py ''admin''" by (simp add: py_def)
  have h3: "?r = (Inr (projr (fst ?r)), snd ?r)"
    by (simp add: sample_query prod_eq_iff)
  have "\<forall>s\<in>set (sources (projr (fst ?r))). owner_id s = PInt 2"
    by (rule query_rag_rbac_containment[OF h1 sample_returns_only_matching h3])
  moreover have "length (sources (projr (fst ?r))) = 2"
    by (simp add: sample_query)
  ultimately have "map owner_id (sources (projr (fst ?r))) = [PInt 2, PInt 2]"
    by (simp add: list_eq_iff_nth_eq nth_Cons')
  with h1 sample_returns_only_matching sample_query show ?thesis by blast
qed

text \<open>
  Claim C10.  In every result that \<open>query_rag\<close> returns, the number of sources equals
  \<open>chunks_searched\<close>; if the store returns at most \<open>limit\<close> records, that number is at
  most \<open>top_k\<close>; and the sources are, position by position, the entries built from the
  records of the search in the order the search returned them.
\<close>

theorem query_rag_sources_ranked:
  assumes "query_rag svc question user_id role top_k w = (Inr res, w')"
  shows "length (sources res) = chunks_searched res \<and>
         (respects_limit svc \<longrightarrow> int (chunks_searched res) \<le> top_k) \<and>
         (\<exists>v pts. embed_api svc w question = Inr v \<and>
            query_points svc (get_qdrant (log_call (EmbedCall question) w)) v
              (query_filter role user_id) top_k = Inr pts \<and>
            list_all2 (source_of (round4 svc)) (sources res) pts)"
proof -
  from query_rag_result[OF assms] obtain v pts where
    v: "embed_api svc w question = Inr v" and
    pts: "query_points svc (get_qdrant (log_call (EmbedCall question) w)) v
             (query_filter role user_id) top_k = Inr pts" and
    all2: "list_all2 (source_of (round4 svc)) (sources res) pts" and
    n: "chunks_searched res = length pts"
    by blast
  have "length (sources res) = chunks_searched res"
    using all2 n by (simp add: list_all2_lengthD)
  moreover have "respects_limit svc \<longrightarrow> int (chunks_searched res) \<le> top_k"
  proof
    assume "respects_limit svc"
    with pts have "int (length pts) \<le> top_k" unfolding respects_limit_def by blast
    with n show "int (chunks_searched res) \<le> top_k" by simp
  qed
  ultimately show ?thesis using v pts all2 by blast
qed

theorem query_rag_sources_ranked_witness:
  "respects_limit sample_services \<and>
   fst (query_rag sample_services (py ''q'') 2 (py ''user'') 5 sample_world) =
     Inr \<lparr>answer = py ''ok'',
          sources = [\<lparr>src_filename = PStr (py ''b.txt''), src_chunk_index = PInt 0,
                      owner_id = PInt 2, score = 2\<rparr>,
                     \<lparr>src_filename = PStr (py ''b.txt''), src_chunk_index = PInt 1,
                      owner_id = PInt 2, score = 3\<rparr>],
          chunks_searched = 2\<rparr> \<and>
   length (sources (projr (fst (query_rag sample_services (py ''q'') 2 (py ''user'') 5 sample_world))))
     = chunks_searched (projr (fst (query_rag sample_services (py ''q'') 2 (py ''user'') 5 sample_world))) \<and>
   int (chunks_searched (projr (fst (query_rag sample_services (py ''q'') 2 (py ''user'') 5 sample_world)))) \<le> 5"
proof -
  let ?r = "query_rag sample_services (py ''q'') 2 (py ''user'') 5 sample_world"
  have h: "?r = (Inr (projr (fst ?r)), snd ?r)"
    by (simp add: sample_query prod_eq_iff)
  from query_rag_sources_ranked[OF h] sample_respects_limit sample_query show ?thesis by blast
qed

lemma query_rag_empty_eval:
  assumes "embed_api svc w question = Inr v"
    and "query_points svc (get_qdrant (log_call (EmbedCall question) w)) v
           (query_filter role user_id) top_k = Inr []"
  shows "query_rag svc question user_id role top_k w =
           (Inr \<lparr>answer = no_documents_answer, sources = [], chunks_searched = 0\<rparr>,
            log_call (QueryPoints v (query_filter role user_id) top_k)
              (get_qdrant (log_call (EmbedCall question) w)))"
  using assms by (simp add: query_rag_def get_embedding_def Let_def)

text \<open>
  Claim C4.  When the filtered search returns no record, \<open>query_rag\<close> returns the fixed
  answer with an empty list of sources and \<open>chunks_searched = 0\<close>; the only requests it has
  sent are the embedding of the question and the search, so the generation service is
  not called.
\<close>

theorem query_rag_no_documents:
  assumes "embed_api svc w question = Inr v"
    and "query_points svc (get_qdrant (log_call (EmbedCall question) w)) v
           (query_filter role user_id) top_k = Inr []"
  shows "fst (query_rag svc question user_id role top_k w) =
           Inr \<lparr>answer = no_documents_answer, sources = [], chunks_searched = 0\<rparr> \<and>
         new_calls w (snd (query_rag svc question user_id role top_k w)) =
           [EmbedCall question, QueryPoints v (query_filter role user_id) top_k] \<and>
         (\<forall>prompt system. GenerateCall prompt system \<notin>
            set (new_calls w (snd (query_rag svc question user_id role top_k w))))"
  by (simp add: query_rag_empty_eval[OF assms] new_calls_def calls_log_call calls_get_qdrant)

theorem query_rag_no_documents_witness:
  "embed_api sample_services sample_world (py ''q'') = Inr 1 \<and>
   query_points sample_services (get_qdrant (log_call (EmbedCall (py ''q'')) sample_world)) 1
     (query_filter (py ''user'') 3) 5 = Inr [] \<and>
   fst (query_rag sample_services (py ''q'') 3 (py ''user'') 5 sample_world) =
     Inr \<lparr>answer = no_documents_answer, sources = [], chunks_searched = 0\<rparr> \<and>
   new_calls sample_world (snd (query_rag sample_services (py ''q'') 3 (py ''user'') 5 sample_world)) =
     [EmbedCall (py ''q''), QueryPoints 1 (query_filter (py ''user'') 3) 5]"
proof -
  have h1: "embed_api sample_services sample_world (py ''q'') = Inr 1"
    by (simp add: sample_services_def py_def)
  have h2: "query_points sample_services (get_qdrant (log_call (EmbedCall (py ''q'')) sample_world)) 1
     (query_filter (py ''user'') 3) 5 = Inr []"
    by (simp add: sample_eval)
  from query_rag_no_documents[OF h1 h2] h1 h2 show ?thesis by blast
qed




section \<open>Properties of ingestion, statistics and deletion\<close>

text \<open>
  Claim C5.  When the extracted text is empty or whitespace-only, or chunking yields no
  chunk, \<open>ingest_document\<close> raises \<open>ValueError\<close> (the validation error of the
  application), sends no request, and leaves the state, the collection included, as it was.
\<close>

theorem ingest_document_rejects_blank:
  assumes "extract_text svc content content_type = Inr text"
    and "strip text = [] \<or> chunk_text text = []"
  shows "(\<exists>msg. fst (ingest_document svc user_id filename content content_type w) =
                  Inl (ValueError msg)) \<and>
         snd (ingest_document svc user_id filename content content_type w) = w \<and>
         new_calls w (snd (ingest_document svc user_id filename content content_type w)) = []"
  using assms by (auto simp: ingest_document_def Let_def new_calls_def)

theorem ingest_document_rejects_blank_witness:
  "extract_text sample_services [32, 10] (py ''text/plain'') = Inr [32, 10] \<and>
   strip [32, 10] = [] \<and>
   fst (ingest_document sample_services 2 (py ''blank.txt'') [32, 10] (py ''text/plain'') sample_world) =
     Inl (ValueError (py ''No text could be extracted from the document'')) \<and>
   snd (ingest_document sample_services 2 (py ''blank.txt'') [32, 10] (py ''text/plain'') sample_world) =
     sample_world"
proof -
  have h1: "extract_text sample_services [32, 10] (py ''text/plain'') = Inr [32, 10]"
    by (simp add: extract_text_def sample_services_def py_def)
  have h2: "strip [32, 10] = []" by (simp add: strip_def is_space_def)
  then have h2': "strip [32, 10] = [] \<or> chunk_text [32, 10] = []" by simp
  have "fst (ingest_document sample_services 2 (py ''blank.txt'') [32, 10] (py ''text/plain'') sample_world) =
     Inl (ValueError (py ''No text could be extracted from the document''))"
    by (simp add: ingest_document_def h1 h2)
  with ingest_document_rejects_blank[OF h1 h2', of 2 "py ''blank.txt''" sample_world] h1 h2
  show ?thesis by blast
qed

text \<open>
  Claim C7.  \<open>get_collection_stats\<close> never raises: it always returns a value; when the
  collection lookup fails, the value is a count of zero with the status \<open>unknown\<close>; when
  the lookup succeeds, it is the point count and the status of the collection.
\<close>

theorem get_collection_stats_never_raises:
  "(\<exists>st. fst (get_collection_stats svc w) = Inr st) \<and>
   (\<forall>e. get_collection svc (get_qdrant w) = Inl e \<longrightarrow>
      fst (get_collection_stats svc w) =
        Inr \<lparr>total_vectors = Some 0, stats_status = py ''unknown''\<rparr>) \<and>
   (\<forall>info. get_collection svc (get_qdrant w) = Inr info \<longrightarrow>
      fst (get_collection_stats svc w) =
        Inr \<lparr>total_vectors = points_count info, stats_status = status_value info\<rparr>)"
  by (auto simp: get_collection_stats_def Let_def split: sum.splits)

theorem get_collection_stats_never_raises_witness:
  "get_collection (sample_services\<lparr>get_collection := \<lambda>w. Inl UpstreamError\<rparr>)
     (get_qdrant sample_world) = Inl UpstreamError \<and>
   fst (get_collection_stats (sample_services\<lparr>get_collection := \<lambda>w. Inl UpstreamError\<rparr>) sample_world) =
     Inr \<lparr>total_vectors = Some 0, stats_status = py ''unknown''\<rparr> \<and>
   get_collection sample_services (get_qdrant sample_world) =
     Inr \<lparr>points_count = Some 3, status_value = py ''green''\<rparr> \<and>
   fst (get_collection_stats sample_services sample_world) =
     Inr \<lparr>total_vectors = Some 3, stats_status = py ''green''\<rparr>"
proof -
  let ?bad = "sample_services\<lparr>get_collection := \<lambda>w. Inl UpstreamError\<rparr>"
  have h1: "get_collection ?bad (get_qdrant sample_world) = Inl UpstreamError" by simp
  have h2: "get_collection sample_services (get_qdrant sample_world) =
              Inr \<lparr>points_count = Some 3, status_value = py ''green''\<rparr>"
    by (simp add: sample_services_def sample_world_def get_qdrant_def)
  from get_collection_stats_never_raises[of ?bad sample_world] h1
  have a: "fst (get_collection_stats ?bad sample_world) =
             Inr \<lparr>total_vectors = Some 0, stats_status = py ''unknown''\<rparr>" by blast
  from get_collection_stats_never_raises[of sample_services sample_world] h2
  have b: "fst (get_collection_stats sample_services sample_world) =
             Inr \<lparr>total_vectors = Some 3, stats_status = py ''green''\<rparr>" by fastforce
  from h1 h2 a b show ?thesis by blast
qed

lemma delete_user_vectors_run:
  "delete_user_vectors svc user_id filename w =
     (case delete svc (get_qdrant w) (delete_filter user_id filename) of
        Inl e \<Rightarrow> (Inl e, log_call (Delete (delete_filter user_id filename)) (get_qdrant w))
      | Inr remaining \<Rightarrow>
          (Inr (), (log_call (Delete (delete_filter user_id filename)) (get_qdrant w))
                     \<lparr>points := remaining\<rparr>))"
  by (simp add: delete_user_vectors_def Let_def)

lemma delete_filter_falsy:
  "delete_filter user_id (Some []) =
     Filter [FieldCondition (py ''user_id'') (MatchValue (PInt user_id))]"
  "delete_filter user_id None =
     Filter [FieldCondition (py ''user_id'') (MatchValue (PInt user_id))]"
  by (simp_all add: delete_filter_def)

lemma sample_deletes_matching: "deletes_matching sample_services"
  by (simp add: deletes_matching_def sample_services_def)

text \<open>
  Claim C9.  \<open>delete_user_vectors\<close> with the empty string as filename does what it does
  with the filename omitted.  The one request it sends is a delete whose filter has the
  owner condition only, without a filename condition; the outcome of the call is what the
  store answers to that request.  With a store that removes exactly the records
  satisfying the filter, every record of the owner is deleted, whatever its filename, and
  every record of another owner stays.
\<close>

theorem delete_user_vectors_empty_filename:
  "delete_user_vectors svc user_id (Some []) w = delete_user_vectors svc user_id None w \<and>
   new_calls w (snd (delete_user_vectors svc user_id (Some []) w)) =
     [Delete (Filter [FieldCondition (py ''user_id'') (MatchValue (PInt user_id))])] \<and>
   (\<forall>remaining.
      delete svc (get_qdrant w)
        (Filter [FieldCondition (py ''user_id'') (MatchValue (PInt user_id))]) = Inr remaining \<longrightarrow>
      fst (delete_user_vectors svc user_id (Some []) w) = Inr () \<and>
      points (snd (delete_user_vectors svc user_id (Some []) w)) = remaining) \<and>
   (\<forall>e.
      delete svc (get_qdrant w)
        (Filter [FieldCondition (py ''user_id'') (MatchValue (PInt user_id))]) = Inl e \<longrightarrow>
      fst (delete_user_vectors svc user_id (Some []) w) = Inl e \<and>
      points (snd (delete_user_vectors svc user_id (Some []) w)) = points w) \<and>
   (deletes_matching svc \<longrightarrow>
      points (snd (delete_user_vectors svc user_id (Some []) w)) =
        filter (\<lambda>p. point_payload p (py ''user_id'') \<noteq> Some (PInt user_id)) (points w))"
proof (intro conjI allI impI)
  show "delete_user_vectors svc user_id (Some []) w = delete_user_vectors svc user_id None w"
    by (simp add: delete_user_vectors_run delete_filter_falsy split: sum.splits)
  show "new_calls w (snd (delete_user_vectors svc user_id (Some []) w)) =
     [Delete (Filter [FieldCondition (py ''user_id'') (MatchValue (PInt user_id))])]"
    by (simp add: delete_user_vectors_run delete_filter_falsy new_calls_def log_call_def
          get_qdrant_def split: sum.splits)
next
  fix remaining
  assume "delete svc (get_qdrant w)
        (Filter [FieldCondition (py ''user_id'') (MatchValue (PInt user_id))]) = Inr remaining"
  then show "fst (delete_user_vectors svc user_id (Some []) w) = Inr ()"
    and "points (snd (delete_user_vectors svc user_id (Some []) w)) = remaining"
    by (simp_all add: delete_user_vectors_run delete_filter_falsy)
next
  fix e
  assume "delete svc (get_qdrant w)
        (Filter [FieldCondition (py ''user_id'') (MatchValue (PInt user_id))]) = Inl e"
  then show "fst (delete_user_vectors svc user_id (Some []) w) = Inl e"
    and "points (snd (delete_user_vectors svc user_id (Some []) w)) = points w"
    by (simp_all add: delete_user_vectors_run delete_filter_falsy log_call_def get_qdrant_def)
next
  assume "deletes_matching svc"
  then have "delete svc (get_qdrant w)
        (Filter [FieldCondition (py ''user_id'') (MatchValue (PInt user_id))]) =
      Inr (filter (\<lambda>p. point_payload p (py ''user_id'') \<noteq> Some (PInt user_id)) (points w))"
    by (simp add: deletes_matching_def get_qdrant_def)
  then show "points (snd (delete_user_vectors svc user_id (Some []) w)) =
        filter (\<lambda>p. point_payload p (py ''user_id'') \<noteq> Some (PInt user_id)) (points w)"
    by (simp add: delete_user_vectors_run delete_filter_falsy)
qed

theorem delete_user_vectors_empty_filename_witness:
  "deletes_matching sample_services \<and>
   map point_id (points sample_world) = [py ''p1'', py ''p2'', py ''p3''] \<and>
   delete sample_services (get_qdrant sample_world)
     (Filter [FieldCondition (py ''user_id'') (MatchValue (PInt 2))]) =
     Inr [\<lparr>point_id = py ''p1'', vector = 1,
           point_payload = sample_payload 1 (py ''a.txt'') 0 (py ''alpha'')\<rparr>] \<and>
   fst (delete_user_vectors sample_services 2 (Some []) sample_world) = Inr () \<and>
   map point_id (points (snd (delete_user_vectors sample_services 2 (Some []) sample_world))) =
     [py ''p1''] \<and>
   new_calls sample_world (snd (delete_user_vectors sample_services 2 (Some []) sample_world)) =
     [Delete (Filter [FieldCondition (py ''user_id'') (MatchValue (PInt 2))])]"
proof -
  have h: "delete sample_services (get_qdrant sample_world)
     (Filter [FieldCondition (py ''user_id'') (MatchValue (PInt 2))]) =
     Inr [\<lparr>point_id = py ''p1'', vector = 1,
           point_payload = sample_payload 1 (py ''a.txt'') 0 (py ''alpha'')\<rparr>]"
    by (simp add: sample_services_def sample_world_def sample_payload_def get_qdrant_def py_def)
  have p: "map point_id (points sample_world) = [py ''p1'', py ''p2'', py ''p3'']"
    by (simp add: sample_world_def)
  from delete_user_vectors_empty_filename[of sample_services 2 sample_world] h
  have a: "fst (delete_user_vectors sample_services 2 (Some []) sample_world) = Inr ()"
    and b: "points (snd (delete_user_vectors sample_services 2 (Some []) sample_world)) =
      [\<lparr>point_id = py ''p1'', vector = 1,
           point_payload = sample_payload 1 (py ''a.txt'') 0 (py ''alpha'')\<rparr>]"
    and c: "new_calls sample_world (snd (delete_user_vectors sample_services 2 (Some []) sample_world)) =
     [Delete (Filter [FieldCondition (py ''user_id'') (MatchValue (PInt 2))])]"
    by blast+
  from b have "map point_id (points (snd (delete_user_vectors sample_services 2 (Some []) sample_world))) =
     [py ''p1'']" by simp
  with sample_deletes_matching p h a c show ?thesis by blast
qed

lemma delete_user_vectors_calls:
  "calls (snd (delete_user_vectors svc user_id filename w)) =
     calls w @ [Delete (delete_filter user_id filename)]"
  by (simp add: delete_user_vectors_def Let_def calls_log_call calls_get_qdrant split: sum.splits)

lemma remove_user_calls:
  "cu_role user = py ''admin'' \<Longrightarrow>
   new_calls w (snd (remove_user svc user_id user w)) =
     [Delete (Filter [FieldCondition (py ''user_id'') (MatchValue (PInt user_id))])]"
  using delete_user_vectors_calls[of svc user_id None w]
  by (auto simp: remove_user_def require_admin_def delete_user_def Let_def new_calls_def
                 delete_filter_def
           split: sum.splits prod.splits bool.splits)

lemma remove_document_admin_calls:
  assumes "cu_role user = py ''admin''"
    and "find (\<lambda>d. doc_id_col d = doc_id) (documents w) = Some d"
    and "doc_filename d \<noteq> []"
  shows "new_calls w (snd (remove_document svc doc_id user w)) =
     [Delete (Filter [FieldCondition (py ''user_id'') (MatchValue (PInt (cu_user_id user))),
                      FieldCondition (py ''filename'') (MatchValue (PStr (doc_filename d)))])]"
proof -
  let ?w1 = "w\<lparr>documents := filter (\<lambda>d. doc_id_col d \<noteq> doc_id) (documents w)\<rparr>"
  have d: "delete_document doc_id None w = (Some (doc_filename d), ?w1)"
    using assms(2) by (simp add: delete_document_def)
  have c: "calls ?w1 = calls w" by simp
  show ?thesis
    using assms(1,3) delete_user_vectors_calls[of svc "cu_user_id user" "Some (doc_filename d)" ?w1]
    by (auto simp: remove_document_def d new_calls_def delete_filter_def c
             split: sum.splits prod.splits)
qed

text \<open>
  Claim C2 does not hold of \<open>remove_document\<close>.  In the sample state document 2 belongs
  to user 2.  When the administrator (user 1) removes it, the row of the document is
  deleted, but the vector deletion is filtered by \<open>user_id = 1\<close>, the administrator: no
  record of user 2 is removed from the collection.
\<close>

theorem remove_document_admin_scopes_to_caller:
  "map doc_user_id (filter (\<lambda>d. doc_id_col d = 2) (documents sample_world)) = [2] \<and>
   new_calls sample_world
     (snd (remove_document sample_services 2
             \<lparr>cu_user_id = 1, cu_username = py ''admin'', cu_role = py ''admin''\<rparr> sample_world)) =
     [Delete (Filter [FieldCondition (py ''user_id'') (MatchValue (PInt 1)),
                      FieldCondition (py ''filename'') (MatchValue (PStr (py ''b.txt'')))])] \<and>
   fst (remove_document sample_services 2
          \<lparr>cu_user_id = 1, cu_username = py ''admin'', cu_role = py ''admin''\<rparr> sample_world) =
     Inr (py ''Document '' @ [39] @ py ''b.txt'' @ [39] @ py '' and its vectors deleted'') \<and>
   map doc_id_col (documents
     (snd (remove_document sample_services 2
             \<lparr>cu_user_id = 1, cu_username = py ''admin'', cu_role = py ''admin''\<rparr> sample_world))) = [1] \<and>
   points
     (snd (remove_document sample_services 2
             \<lparr>cu_user_id = 1, cu_username = py ''admin'', cu_role = py ''admin''\<rparr> sample_world)) =
     points sample_world"
  by (simp add: remove_document_def delete_document_def delete_user_vectors_def delete_filter_def
        new_calls_def log_call_def get_qdrant_def sample_services_def sample_world_def
        sample_payload_def py_def Let_def)

end
